theory Spec2Isabelle
  imports Complex_Main "HOL-Library.Word"
begin

section \<open>Sky coverage of a list of targets: the geometry and coverage engine\<close>

text \<open>
  A shallow embedding of \<^verbatim>\<open>wn.py\<close>, \<^verbatim>\<open>skycoverage.py\<close> and \<^verbatim>\<open>geom.py\<close>.
  A numpy array of shape (N, 2) is a list of pairs, one of shape (N, 3) a list of triples,
  a 3 x 3 matrix a triple of rows.  Floating-point numbers are idealised as reals (the
  integer test arrays of \<^verbatim>\<open>wn.tests\<close> are covered by keeping the winding-number code
  polymorphic in an ordered ring); arrays of dtype int32 are lists of 32-bit words, read
  as signed values with \<^term>\<open>sint\<close>.
\<close>

datatype py_error = IndexError | ValueError | ZeroDivisionError

type_synonym int32 = "32 word"

subsection \<open>wn.py\<close>

definition is_left :: "'a::linordered_idom \<times> 'a \<Rightarrow> 'a \<times> 'a \<Rightarrow> 'a \<times> 'a \<Rightarrow> 'a" where
  "is_left p0 p1 p2 =
     (fst p1 - fst p0) * (snd p2 - snd p0) - (fst p2 - fst p0) * (snd p1 - snd p0)"

text \<open>
  The body of the loop of \<^verbatim>\<open>wn_pnpoly\<close> at index \<open>i\<close>, on the counter \<open>wn\<close>
  (a Python integer).
\<close>

definition wn_body :: "'a::linordered_idom \<times> 'a \<Rightarrow> ('a \<times> 'a) list \<Rightarrow> nat \<Rightarrow> int \<Rightarrow> int" where
  "wn_body p v i wn =
     (if snd (v ! i) \<le> snd p then
        (if snd (v ! (i + 1)) > snd p then
           (if is_left (v ! i) (v ! (i + 1)) p > 0 then wn + 1 else wn)
         else wn)
      else if snd (v ! (i + 1)) \<le> snd p then
        (if is_left (v ! i) (v ! (i + 1)) p < 0 then wn - 1 else wn)
      else wn)"

text \<open>
  \<^verbatim>\<open>n = len(v) - 1; for i in range(n)\<close>: for an empty \<open>v\<close> the range is
  \<^verbatim>\<open>range(-1)\<close>, which is empty like \<^verbatim>\<open>range(0)\<close>, so the truncating
  subtraction of \<open>nat\<close> gives the same loop.  Every index read, \<open>i\<close> and \<open>i + 1\<close>,
  is below \<open>len(v)\<close>: the loop raises nothing (see \<open>wn_pnpoly_on\<close> below, where the
  reads are checked).
\<close>

definition wn_pnpoly :: "'a::linordered_idom \<times> 'a \<Rightarrow> ('a \<times> 'a) list \<Rightarrow> int" where
  "wn_pnpoly p v = fold (wn_body p v) [0..<length v - 1] 0"

text \<open>
  \<^verbatim>\<open>wn = np.zeros(len(ps), dtype=np.int32); wn[i] = wn_pnpoly(p, v)\<close>: the store
  into the int32 array keeps the low 32 bits of the counter, as the cast of the compiled
  (\<^verbatim>\<open>@jit\<close>) loop does.  The counter moves by at
  most one per edge, so it fits in an int32 whenever the polygon has at most \<open>2^31\<close>
  vertices.
\<close>

definition wn_multipnpoly :: "('a::linordered_idom \<times> 'a) list \<Rightarrow> ('a \<times> 'a) list \<Rightarrow> int32 list" where
  "wn_multipnpoly ps v = map (\<lambda>p. word_of_int (wn_pnpoly p v)) ps"

text \<open>The polygon of \<^verbatim>\<open>wn.tests\<close>.\<close>

definition tests_v :: "('a::linordered_idom \<times> 'a) list" where
  "tests_v = [(-1, -1), (1, -1), (0, 1), (-1, -1)]"

subsection \<open>skycoverage.py: coverage\<close>

text \<open>\<^verbatim>\<open>np.int32(wn.wn_multipnpoly(pixels, polygon) != 0)\<close>\<close>

definition coverage :: "('a::linordered_idom \<times> 'a) list \<Rightarrow> ('a \<times> 'a) list \<Rightarrow> int32 list" where
  "coverage pixels polygon =
     map (\<lambda>w. if w \<noteq> 0 then 1 else 0) (wn_multipnpoly pixels polygon)"

text \<open>
  \<^verbatim>\<open>image += coverage(pixels, polygon)\<close>: the element-wise sum of two int32 arrays of
  the same length, wrapping around.
\<close>

definition iadd :: "int32 list \<Rightarrow> int32 list \<Rightarrow> int32 list" where
  "iadd img c = map2 (+) img c"

text \<open>
  \<^verbatim>\<open>polygons[0]\<close> raises IndexError on an empty list; otherwise the loop runs over
  \<^verbatim>\<open>polygons[1:]\<close>.
\<close>

definition coverage_all ::
  "('a::linordered_idom \<times> 'a) list \<Rightarrow> ('a \<times> 'a) list list \<Rightarrow> py_error + int32 list" where
  "coverage_all pixels polygons =
     (case polygons of
        [] \<Rightarrow> Inl IndexError
      | polygon0 # rest \<Rightarrow>
          Inr (fold (\<lambda>polygon img. iadd img (coverage pixels polygon)) rest
                 (coverage pixels polygon0)))"

subsection \<open>wn.py and coverage over any number type\<close>

text \<open>
  The Python code does not fix the number type of the coordinates: the same loop runs on
  float64 arrays, with rounding, infinities and NaN, and on integer arrays.  Here it is
  once more with the comparisons and the arithmetic as parameters, and with every array
  read checked against the length of the array.  On the exact arithmetic of an ordered
  ring, \<open>ring_arith\<close>, it is the code above (shown below).
\<close>

record 'c arith =
  f_le :: "'c \<Rightarrow> 'c \<Rightarrow> bool"
  f_gt :: "'c \<Rightarrow> 'c \<Rightarrow> bool"
  f_lt :: "'c \<Rightarrow> 'c \<Rightarrow> bool"
  f_sub :: "'c \<Rightarrow> 'c \<Rightarrow> 'c"
  f_mul :: "'c \<Rightarrow> 'c \<Rightarrow> 'c"
  f_zero :: "'c"

definition ring_arith :: "'a::linordered_idom arith" where
  "ring_arith = \<lparr>f_le = (\<le>), f_gt = (\<lambda>a b. a > b), f_lt = (<), f_sub = (-), f_mul = (*),
                 f_zero = 0\<rparr>"

definition is_left_on :: "'c arith \<Rightarrow> 'c \<times> 'c \<Rightarrow> 'c \<times> 'c \<Rightarrow> 'c \<times> 'c \<Rightarrow> 'c" where
  "is_left_on A p0 p1 p2 =
     f_sub A (f_mul A (f_sub A (fst p1) (fst p0)) (f_sub A (snd p2) (snd p0)))
             (f_mul A (f_sub A (fst p2) (fst p0)) (f_sub A (snd p1) (snd p0)))"

text \<open>\<^verbatim>\<open>v[i]\<close> for an index \<open>i \<ge> 0\<close>: IndexError beyond the end.\<close>

definition item :: "'b list \<Rightarrow> nat \<Rightarrow> py_error + 'b" where
  "item v i = (if i < length v then Inr (v ! i) else Inl IndexError)"

definition wn_body_on ::
  "'c arith \<Rightarrow> 'c \<times> 'c \<Rightarrow> ('c \<times> 'c) list \<Rightarrow> nat \<Rightarrow> int \<Rightarrow> py_error + int" where
  "wn_body_on A p v i wn =
     (case item v i of
        Inl e \<Rightarrow> Inl e
      | Inr a \<Rightarrow>
         (if f_le A (snd a) (snd p) then
            (case item v (i + 1) of
               Inl e \<Rightarrow> Inl e
             | Inr b \<Rightarrow>
                (if f_gt A (snd b) (snd p) then
                   (if f_gt A (is_left_on A a b p) (f_zero A) then Inr (wn + 1) else Inr wn)
                 else Inr wn))
          else
            (case item v (i + 1) of
               Inl e \<Rightarrow> Inl e
             | Inr b \<Rightarrow>
                (if f_le A (snd b) (snd p) then
                   (if f_lt A (is_left_on A a b p) (f_zero A) then Inr (wn - 1) else Inr wn)
                 else Inr wn))))"

text \<open>A \<^verbatim>\<open>for\<close> loop over a list of indices that stops at the first error.\<close>

fun for_range :: "(nat \<Rightarrow> int \<Rightarrow> py_error + int) \<Rightarrow> nat list \<Rightarrow> int \<Rightarrow> py_error + int" where
  "for_range body [] wn = Inr wn"
| "for_range body (i # is) wn =
     (case body i wn of Inl e \<Rightarrow> Inl e | Inr wn' \<Rightarrow> for_range body is wn')"

definition wn_pnpoly_on :: "'c arith \<Rightarrow> 'c \<times> 'c \<Rightarrow> ('c \<times> 'c) list \<Rightarrow> py_error + int" where
  "wn_pnpoly_on A p v = for_range (wn_body_on A p v) [0..<length v - 1] 0"

fun wn_multipnpoly_on ::
  "'c arith \<Rightarrow> ('c \<times> 'c) list \<Rightarrow> ('c \<times> 'c) list \<Rightarrow> py_error + int32 list" where
  "wn_multipnpoly_on A [] v = Inr []"
| "wn_multipnpoly_on A (p # ps) v =
     (case wn_pnpoly_on A p v of
        Inl e \<Rightarrow> Inl e
      | Inr w \<Rightarrow>
     (case wn_multipnpoly_on A ps v of
        Inl e \<Rightarrow> Inl e
      | Inr ws \<Rightarrow> Inr (word_of_int w # ws)))"

definition coverage_on ::
  "'c arith \<Rightarrow> ('c \<times> 'c) list \<Rightarrow> ('c \<times> 'c) list \<Rightarrow> py_error + int32 list" where
  "coverage_on A pixels polygon =
     (case wn_multipnpoly_on A pixels polygon of
        Inl e \<Rightarrow> Inl e
      | Inr ws \<Rightarrow> Inr (map (\<lambda>w. if w \<noteq> 0 then 1 else 0) ws))"

fun accumulate_on ::
  "'c arith \<Rightarrow> ('c \<times> 'c) list \<Rightarrow> ('c \<times> 'c) list list \<Rightarrow> int32 list \<Rightarrow> py_error + int32 list" where
  "accumulate_on A pixels [] img = Inr img"
| "accumulate_on A pixels (polygon # rest) img =
     (case coverage_on A pixels polygon of
        Inl e \<Rightarrow> Inl e
      | Inr c \<Rightarrow> accumulate_on A pixels rest (iadd img c))"

definition coverage_all_on ::
  "'c arith \<Rightarrow> ('c \<times> 'c) list \<Rightarrow> ('c \<times> 'c) list list \<Rightarrow> py_error + int32 list" where
  "coverage_all_on A pixels polygons =
     (case polygons of
        [] \<Rightarrow> Inl IndexError
      | polygon0 # rest \<Rightarrow>
     (case coverage_on A pixels polygon0 of
        Inl e \<Rightarrow> Inl e
      | Inr img \<Rightarrow> accumulate_on A pixels rest img))"

text \<open>
  Floating-point values with their infinities and NaN, without rounding and without
  signed zeros: a comparison with NaN is false, and NaN, \<open>inf - inf\<close> and \<open>0 * inf\<close>
  give NaN.  They serve as examples of non-finite coordinates.
\<close>

datatype fl = Fin real | PInf | NInf | NaN

fun fl_le :: "fl \<Rightarrow> fl \<Rightarrow> bool" where
  "fl_le NaN _ = False"
| "fl_le _ NaN = False"
| "fl_le NInf _ = True"
| "fl_le _ PInf = True"
| "fl_le (Fin x) (Fin y) = (x \<le> y)"
| "fl_le _ _ = False"

fun fl_lt :: "fl \<Rightarrow> fl \<Rightarrow> bool" where
  "fl_lt NaN _ = False"
| "fl_lt _ NaN = False"
| "fl_lt (Fin x) (Fin y) = (x < y)"
| "fl_lt NInf NInf = False"
| "fl_lt PInf PInf = False"
| "fl_lt NInf _ = True"
| "fl_lt _ PInf = True"
| "fl_lt _ _ = False"

fun fl_neg :: "fl \<Rightarrow> fl" where
  "fl_neg (Fin x) = Fin (- x)"
| "fl_neg PInf = NInf"
| "fl_neg NInf = PInf"
| "fl_neg NaN = NaN"

fun fl_add :: "fl \<Rightarrow> fl \<Rightarrow> fl" where
  "fl_add NaN _ = NaN"
| "fl_add _ NaN = NaN"
| "fl_add (Fin x) (Fin y) = Fin (x + y)"
| "fl_add PInf NInf = NaN"
| "fl_add NInf PInf = NaN"
| "fl_add PInf _ = PInf"
| "fl_add _ PInf = PInf"
| "fl_add NInf _ = NInf"
| "fl_add _ NInf = NInf"

fun fl_mul :: "fl \<Rightarrow> fl \<Rightarrow> fl" where
  "fl_mul NaN _ = NaN"
| "fl_mul _ NaN = NaN"
| "fl_mul (Fin x) (Fin y) = Fin (x * y)"
| "fl_mul (Fin x) i = (if x = 0 then NaN else if 0 < x then i else fl_neg i)"
| "fl_mul i (Fin y) = (if y = 0 then NaN else if 0 < y then i else fl_neg i)"
| "fl_mul PInf i = i"
| "fl_mul NInf i = fl_neg i"

definition fl_sub :: "fl \<Rightarrow> fl \<Rightarrow> fl" where
  "fl_sub a b = fl_add a (fl_neg b)"

definition ieee :: "fl arith" where
  "ieee = \<lparr>f_le = fl_le, f_gt = (\<lambda>a b. fl_lt b a), f_lt = fl_lt,
            f_sub = fl_sub, f_mul = fl_mul, f_zero = Fin 0\<rparr>"

subsection \<open>skycoverage.py: the pixel grid\<close>

type_synonym extent = "real \<times> real \<times> real \<times> real"

text \<open>
  \<^verbatim>\<open>np.linspace(start, stop, num)\<close> with a Python integer \<open>num\<close>: a negative \<open>num\<close>
  raises ValueError, \<open>num = 1\<close> gives \<open>[start]\<close>, otherwise \<open>num\<close> samples with the step
  \<open>(stop - start) / (num - 1)\<close>, the last one being \<open>stop\<close>.
\<close>

definition linspace :: "real \<Rightarrow> real \<Rightarrow> int \<Rightarrow> py_error + real list" where
  "linspace start stop num =
     (if num < 0 then Inl ValueError
      else if num = 1 then Inr [start]
      else Inr (map (\<lambda>k. start + real k * ((stop - start) / real_of_int (num - 1)))
                  [0..<nat num]))"

text \<open>
  \<^verbatim>\<open>np.meshgrid(x, y)\<close> (indexing \<^verbatim>\<open>'xy'\<close>): two arrays of shape
  \<open>(len(y), len(x))\<close> with \<open>X[j][i] = x[i]\<close> and \<open>Y[j][i] = y[j]\<close>.
\<close>

definition meshgrid :: "real list \<Rightarrow> real list \<Rightarrow> real list list \<times> real list list" where
  "meshgrid x y = (replicate (length y) x, map (\<lambda>yj. replicate (length x) yj) y)"

text \<open>
  \<^verbatim>\<open>np.array(np.meshgrid(x, y)).T.reshape(-1, 2)\<close>: the stacked array has shape
  \<open>(2, ny, nx)\<close>, its transpose shape \<open>(nx, ny, 2)\<close> with entry \<open>[i][j] = (X[j][i], Y[j][i])\<close>,
  and the reshape lists these pairs row by row, \<open>i\<close> outermost.
\<close>

definition make_pixels :: "extent \<Rightarrow> int \<times> int \<Rightarrow> py_error + (real \<times> real) list" where
  "make_pixels extent sz =
     (case extent of (xmin, ymin, xmax, ymax) \<Rightarrow>
     (case sz of (nx, ny) \<Rightarrow>
     (case linspace xmin xmax nx of
        Inl e \<Rightarrow> Inl e
      | Inr x \<Rightarrow>
     (case linspace ymin ymax ny of
        Inl e \<Rightarrow> Inl e
      | Inr y \<Rightarrow>
     (case meshgrid x y of (X, Y) \<Rightarrow>
        Inr (concat (map (\<lambda>i. map (\<lambda>j. (X ! j ! i, Y ! j ! i)) [0..<length y])
                       [0..<length x])))))))"

text \<open>
  \<^verbatim>\<open>np.reshape(a, (n, m))\<close> of a one-dimensional array, in row-major order.  The
  result carries its shape, since a list of rows does not tell \<open>(0, m)\<close> from \<open>(0, 0)\<close>.
  A dimension \<open>-1\<close> is inferred from the length; any other mismatch raises ValueError.
\<close>

definition chunks :: "nat \<Rightarrow> nat \<Rightarrow> 'a list \<Rightarrow> 'a list list" where
  "chunks rows cols xs = map (\<lambda>i. take cols (drop (i * cols) xs)) [0..<rows]"

definition reshape2 :: "'a list \<Rightarrow> int \<Rightarrow> int \<Rightarrow> py_error + nat \<times> nat \<times> 'a list list" where
  "reshape2 a n m =
     (if n < - 1 \<or> m < - 1 \<or> (n = - 1 \<and> m = - 1) then Inl ValueError
      else if n = - 1 then
        (if m = 0 \<or> length a mod nat m \<noteq> 0 then Inl ValueError
         else Inr (length a div nat m, nat m, chunks (length a div nat m) (nat m) a))
      else if m = - 1 then
        (if n = 0 \<or> length a mod nat n \<noteq> 0 then Inl ValueError
         else Inr (nat n, length a div nat n, chunks (nat n) (length a div nat n) a))
      else if nat n * nat m = length a then Inr (nat n, nat m, chunks (nat n) (nat m) a)
      else Inl ValueError)"

text \<open>The attribute \<^verbatim>\<open>.T\<close> of a two-dimensional array.\<close>

definition T2 :: "nat \<times> nat \<times> 'a list list \<Rightarrow> 'a list list" where
  "T2 arr = (case arr of (rows, cols, r) \<Rightarrow>
               map (\<lambda>j. map (\<lambda>i. r ! i ! j) [0..<rows]) [0..<cols])"

text \<open>
  \<open>extent\<close> holds Python floats and \<open>size\<close> Python integers (as \<^verbatim>\<open>main\<close> parses
  them), so each of the two divisions raises ZeroDivisionError on a zero divisor.  The
  argument \<open>pixels\<close> is not used.
\<close>

definition make_image ::
  "(real \<times> real) list \<Rightarrow> 'a list \<Rightarrow> extent \<Rightarrow> int \<times> int
     \<Rightarrow> py_error + real list \<times> real list \<times> 'a list list" where
  "make_image pixels cover extent sz =
     (case extent of (xmin, ymin, xmax, ymax) \<Rightarrow>
     (case sz of (nx, ny) \<Rightarrow>
     (if nx - 1 = 0 then Inl ZeroDivisionError
      else (let dx = (xmax - xmin) / real_of_int (nx - 1) in
     (if ny - 1 = 0 then Inl ZeroDivisionError
      else (let dy = (ymax - ymin) / real_of_int (ny - 1) in
     (case linspace (xmin - dx / 2) (xmax + dx / 2) (nx + 1) of
        Inl e \<Rightarrow> Inl e
      | Inr x \<Rightarrow>
     (case linspace (ymin - dy / 2) (ymax + dy / 2) (ny + 1) of
        Inl e \<Rightarrow> Inl e
      | Inr y \<Rightarrow>
     (case reshape2 cover nx ny of
        Inl e \<Rightarrow> Inl e
      | Inr r \<Rightarrow> Inr (x, y, T2 r))))))))))"

subsection \<open>geom.py\<close>

type_synonym vec3 = "real \<times> real \<times> real"
type_synonym mat3 = "vec3 \<times> vec3 \<times> vec3"

text \<open>\<^verbatim>\<open>np.radians\<close> and \<^verbatim>\<open>np.degrees\<close>.\<close>

definition radians :: "real \<Rightarrow> real" where
  "radians d = d * pi / 180"

definition degrees :: "real \<Rightarrow> real" where
  "degrees r = r * 180 / pi"

text \<open>
  \<^verbatim>\<open>np.arctan2(y, x)\<close> on reals: the angle of the point \<open>(x, y)\<close> in \<open>(-pi, pi]\<close>,
  and 0 at the origin.  Reals have no signed zeros: in floating point
  \<^verbatim>\<open>np.arctan2(0.0, -0.0)\<close> is \<open>pi\<close>.
\<close>

definition arctan2 :: "real \<Rightarrow> real \<Rightarrow> real" where
  "arctan2 y x =
     (if 0 < x then arctan (y / x)
      else if x < 0 then (if 0 \<le> y then arctan (y / x) + pi else arctan (y / x) - pi)
      else if 0 < y then pi / 2
      else if y < 0 then - (pi / 2)
      else 0)"

definition to_vec :: "(real \<times> real) list \<Rightarrow> vec3 list" where
  "to_vec ang =
     map (\<lambda>(lon, lat).
            let theta = pi / 2 - radians lat;
                phi = radians lon;
                sp = sin phi; cp = cos phi;
                st = sin theta; ct = cos theta
            in (st * cp, st * sp, ct)) ang"

text \<open>
  For the zero vector numpy divides by \<open>r = 0\<close> and returns NaN; the model is meant for
  \<open>r \<noteq> 0\<close> only (below, \<open>r = 1\<close>).
\<close>

definition to_ang :: "vec3 list \<Rightarrow> (real \<times> real) list" where
  "to_ang vec =
     map (\<lambda>(x, y, z).
            let r = sqrt (x\<^sup>2 + y\<^sup>2 + z\<^sup>2);
                c = z / r
            in (degrees (arctan2 y x), 90 - degrees (arccos c))) vec"

text \<open>
  \<^verbatim>\<open>np.matmul\<close> on two 3 x 3 matrices (\<open>matmul\<close>) and on an array of shape (N, 3)
  and a 3 x 3 matrix (\<open>matmul_rows\<close>); \<open>mat_T\<close> is \<^verbatim>\<open>.T\<close>, and \<open>mat_vec\<close> applies a
  matrix to a column vector.
\<close>

definition dot :: "vec3 \<Rightarrow> vec3 \<Rightarrow> real" where
  "dot a b = (case a of (a1, a2, a3) \<Rightarrow> case b of (b1, b2, b3) \<Rightarrow> a1 * b1 + a2 * b2 + a3 * b3)"

definition mat_T :: "mat3 \<Rightarrow> mat3" where
  "mat_T m = (case m of ((a, b, c), (d, e, f), (g, h, i)) \<Rightarrow> ((a, d, g), (b, e, h), (c, f, i)))"

definition vec_mat :: "vec3 \<Rightarrow> mat3 \<Rightarrow> vec3" where
  "vec_mat v m = (case mat_T m of (c1, c2, c3) \<Rightarrow> (dot v c1, dot v c2, dot v c3))"

definition mat_vec :: "mat3 \<Rightarrow> vec3 \<Rightarrow> vec3" where
  "mat_vec m v = (case m of (r1, r2, r3) \<Rightarrow> (dot r1 v, dot r2 v, dot r3 v))"

definition matmul :: "mat3 \<Rightarrow> mat3 \<Rightarrow> mat3" where
  "matmul a b = (case a of (r1, r2, r3) \<Rightarrow> (vec_mat r1 b, vec_mat r2 b, vec_mat r3 b))"

definition matmul_rows :: "vec3 list \<Rightarrow> mat3 \<Rightarrow> vec3 list" where
  "matmul_rows vs m = map (\<lambda>v. vec_mat v m) vs"

definition rot_mat :: "real \<Rightarrow> real \<Rightarrow> mat3" where
  "rot_mat lon lat =
     (let c_lon = cos (radians lon); s_lon = sin (radians lon);
          c_lat = cos (radians lat); s_lat = sin (radians lat);
          r_y = ((c_lat, 0, - s_lat),
                 (0, 1, 0),
                 (s_lat, 0, c_lat));
          r_z = ((c_lon, - s_lon, 0),
                 (s_lon, c_lon, 0),
                 (0, 0, 1))
      in matmul r_z r_y)"

definition rotate_to :: "real \<Rightarrow> real \<Rightarrow> (real \<times> real) list \<Rightarrow> (real \<times> real) list" where
  "rotate_to lon lat ang =
     (let r = rot_mat lon lat;
          vec = matmul_rows (to_vec ang) (mat_T r)
      in to_ang vec)"

subsection \<open>Auxiliary notions for the proofs\<close>

text \<open>
  What one pass of the loop body adds to the counter for the edge from \<open>a\<close> to \<open>b\<close>,
  and the sum of it along a vertex list.  Both are shown equal to the loop below.
\<close>

definition edge_wn :: "'a::linordered_idom \<times> 'a \<Rightarrow> 'a \<times> 'a \<Rightarrow> 'a \<times> 'a \<Rightarrow> int" where
  "edge_wn p a b =
     (if snd a \<le> snd p then (if snd b > snd p \<and> is_left a b p > 0 then 1 else 0)
      else if snd b \<le> snd p \<and> is_left a b p < 0 then - 1 else 0)"

fun path_wn :: "'a::linordered_idom \<times> 'a \<Rightarrow> ('a \<times> 'a) list \<Rightarrow> int" where
  "path_wn p (a # b # rest) = edge_wn p a b + path_wn p (b # rest)"
| "path_wn p _ = 0"

text \<open>The entry of \<open>coverage\<close> for pixel \<open>p\<close> and polygon \<open>v\<close>, as a number.\<close>

definition ind :: "'a::linordered_idom \<times> 'a \<Rightarrow> ('a \<times> 'a) list \<Rightarrow> nat" where
  "ind p v = (if (word_of_int (wn_pnpoly p v) :: int32) \<noteq> 0 then 1 else 0)"

text \<open>The triangle of the tests run through \<open>k\<close> times, closed.\<close>

definition wound :: "nat \<Rightarrow> ('a::linordered_idom \<times> 'a) list" where
  "wound k = concat (replicate k [(-1, -1), (1, -1), (0, 1)]) @ [(-1, -1)]"

text \<open>The determinant and the identity matrix.\<close>

definition det3 :: "mat3 \<Rightarrow> real" where
  "det3 m = (case m of ((a, b, c), (d, e, f), (g, h, i)) \<Rightarrow>
               a * (e * i - f * h) - b * (d * i - f * g) + c * (d * h - e * g))"

definition identity3 :: mat3 where
  "identity3 = ((1, 0, 0), (0, 1, 0), (0, 0, 1))"

section \<open>Properties\<close>

subsection \<open>The winding number on the triangle of the tests\<close>

lemma upt_3: "[0..<3] = [0, 1, 2]"
  by (simp add: upt_rec)

text \<open>
  C9: for the closed triangle \<open>[(-1,-1),(1,-1),(0,1),(-1,-1)]\<close> the winding number that
  \<open>wn_pnpoly\<close> computes is 1, hence nonzero, at the point \<open>(0,0)\<close> and zero at \<open>(1,1)\<close>,
  on integer arrays as in the tests and on real ones.
\<close>

theorem wn_pnpoly_triangle:
  "wn_pnpoly (0, 0) (tests_v :: ('a::linordered_idom \<times> 'a) list) = 1
   \<and> wn_pnpoly (1, 1) (tests_v :: ('a \<times> 'a) list) = 0"
  by (simp add: wn_pnpoly_def tests_v_def upt_3 wn_body_def is_left_def)

subsection \<open>The loop as a sum over the edges\<close>

lemma wn_pnpoly_indices_in_range:
  "i \<in> set [0..<length v - 1] \<Longrightarrow> i < length v \<and> i + 1 < length v"
  by auto

lemma wn_body_edge: "wn_body p v i wn = wn + edge_wn p (v ! i) (v ! (i + 1))"
  by (simp add: wn_body_def edge_wn_def)

lemma fold_wn_body:
  "fold (wn_body p v) is acc = acc + sum_list (map (\<lambda>i. edge_wn p (v ! i) (v ! (i + 1))) is)"
  by (induction "is" arbitrary: acc) (simp_all add: wn_body_edge)

lemma edge_sum_path:
  "sum_list (map (\<lambda>i. edge_wn p (v ! i) (v ! (i + 1))) [0..<length v - 1]) = path_wn p v"
proof (induction p v rule: path_wn.induct)
  case (1 p a b rest)
  have "[0..<length (a # b # rest) - 1] = 0 # map Suc [0..<length (b # rest) - 1]"
    by (simp add: upt_conv_Cons map_Suc_upt del: upt_Suc)
  then show ?case using 1 by (simp add: comp_def del: upt_Suc)
qed simp_all

lemma wn_pnpoly_path: "wn_pnpoly p v = path_wn p v"
  unfolding wn_pnpoly_def fold_wn_body edge_sum_path by simp

lemma edge_wn_abs: "\<bar>edge_wn p a b\<bar> \<le> 1"
  by (simp add: edge_wn_def)

lemma path_wn_abs: "\<bar>path_wn p v\<bar> \<le> int (length v - 1)"
proof (induction p v rule: path_wn.induct)
  case (1 p a b rest)
  then show ?case using edge_wn_abs [of p a b] by simp
qed simp_all

lemma wn_pnpoly_abs: "\<bar>wn_pnpoly p v\<bar> \<le> int (length v - 1)"
  unfolding wn_pnpoly_path by (rule path_wn_abs)

subsection \<open>The coverage array counts polygons\<close>

lemma coverage_ind: "coverage ps v = map (\<lambda>p. of_nat (ind p v)) ps"
  by (simp add: coverage_def wn_multipnpoly_def ind_def)

lemma fold_iadd:
  "fold (\<lambda>polygon img. iadd img (coverage ps polygon)) vs (map (\<lambda>p. of_nat (f p)) ps)
   = map (\<lambda>p. of_nat (f p + sum_list (map (ind p) vs))) ps"
proof (induction vs arbitrary: f)
  case Nil
  then show ?case by simp
next
  case (Cons v vs)
  have "iadd (map (\<lambda>p. of_nat (f p)) ps) (coverage ps v) = map (\<lambda>p. of_nat (f p + ind p v)) ps"
    by (simp add: iadd_def coverage_ind zip_map_map map_zip_map zip_same_conv_map)
  then show ?case using Cons [of "\<lambda>p. f p + ind p v"] by (simp add: add.assoc)
qed

lemma coverage_all_count:
  "coverage_all ps (v # vs) = Inr (map (\<lambda>p. of_nat (sum_list (map (ind p) (v # vs)))) ps)"
proof -
  have "coverage_all ps (v # vs)
        = Inr (fold (\<lambda>polygon img. iadd img (coverage ps polygon)) vs
                 (map (\<lambda>p. of_nat (ind p v)) ps))"
    by (simp add: coverage_all_def coverage_ind [of ps v])
  then show ?thesis
    unfolding fold_iadd by simp
qed

lemma sum_ind_le: "sum_list (map (ind p) vs) \<le> length vs"
  by (induction vs) (simp_all add: ind_def)

lemma sint_of_nat_small: "n < 2 ^ 31 \<Longrightarrow> sint (of_nat n :: int32) = int n"
  by (simp add: signed_of_nat signed_take_bit_int_eq_self)

lemma ind_tests: "ind (0, 0) (tests_v :: ('a::linordered_idom \<times> 'a) list) = 1"
  by (simp add: ind_def wn_pnpoly_def tests_v_def upt_3 wn_body_def is_left_def)

lemma wn_tests_inside: "wn_pnpoly (0, 0) (tests_v :: ('a::linordered_idom \<times> 'a) list) = 1"
  by (simp add: wn_pnpoly_def tests_v_def upt_3 wn_body_def is_left_def)

lemma wn_tests_outside: "wn_pnpoly (1, 1) (tests_v :: ('a::linordered_idom \<times> 'a) list) = 0"
  by (simp add: wn_pnpoly_def tests_v_def upt_3 wn_body_def is_left_def)

subsection \<open>The winding number stored in an int32 array\<close>

lemma word_wn_zero_iff32:
  assumes "\<bar>w\<bar> < 2 ^ 32"
  shows "(word_of_int w :: int32) = 0 \<longleftrightarrow> w = 0"
proof
  assume "(word_of_int w :: int32) = 0"
  then have "(2 :: int) ^ 32 dvd w"
    by (simp add: word_of_int_eq_0_iff)
  then show "w = 0" using assms dvd_imp_le_int [of w "2 ^ 32"]
    by auto
qed simp

lemma wound_Suc: "wound (Suc k) = (-1, -1) # (1, -1) # (0, 1) # wound k"
  by (simp add: wound_def)

lemma wound_start: "\<exists>rest. wound k = (-1, -1) # rest"
  by (cases k) (simp_all add: wound_def)

lemma path_wn_wound: "path_wn (0, 0) (wound k :: ('a::linordered_idom \<times> 'a) list) = int k"
proof (induction k)
  case 0
  show ?case by (simp add: wound_def)
next
  case (Suc k)
  obtain rest where r: "(wound k :: ('a \<times> 'a) list) = (-1, -1) # rest"
    using wound_start by blast
  show ?case using Suc unfolding wound_Suc r
    by (simp add: edge_wn_def is_left_def)
qed

lemma wn_pnpoly_wound: "wn_pnpoly (0, 0) (wound k :: ('a::linordered_idom \<times> 'a) list) = int k"
  unfolding wn_pnpoly_path by (rule path_wn_wound)

subsection \<open>An empty polygon list\<close>

text \<open>
  C1 (the code departs from the claim): \<open>coverage_all\<close> reads \<open>polygons[0]\<close> before
  anything else, so on an empty polygon list it raises IndexError instead of returning
  an all-zero array of length \<open>len(pixels)\<close>.
\<close>

theorem coverage_all_empty: "coverage_all pixels [] = Inl IndexError"
  by (simp add: coverage_all_def)

subsection \<open>Batch membership\<close>

text \<open>
  C5 (as amended): for every sequence of points and every polygon, \<open>coverage\<close> returns
  one int32 value per point, and entry \<open>i\<close> is 1 if the winding number of point \<open>i\<close> in
  the polygon is nonzero and 0 if it is zero, provided that this winding number is below
  \<open>2^32\<close> in absolute value; this is so for every point when the polygon has at most
  \<open>2^32\<close> vertices.
\<close>

theorem coverage_indicator_bounded:
  "length (coverage ps v) = length ps \<and>
   (\<forall>i<length ps.
      \<bar>wn_pnpoly (ps ! i) v\<bar> < 2 ^ 32 \<longrightarrow>
      coverage ps v ! i = (if wn_pnpoly (ps ! i) v \<noteq> 0 then 1 else 0)) \<and>
   (length v \<le> 2 ^ 32 \<longrightarrow>
      (\<forall>i<length ps. coverage ps v ! i = (if wn_pnpoly (ps ! i) v \<noteq> 0 then 1 else 0)))"
proof -
  have a: "coverage ps v ! i = (if wn_pnpoly (ps ! i) v \<noteq> 0 then 1 else 0)"
    if "i < length ps" "\<bar>wn_pnpoly (ps ! i) v\<bar> < 2 ^ 32" for i
    using that by (simp add: coverage_def wn_multipnpoly_def word_wn_zero_iff32)
  have b: "\<bar>wn_pnpoly p v\<bar> < 2 ^ 32" if "length v \<le> 2 ^ 32" for p
  proof -
    have "\<bar>wn_pnpoly p v\<bar> \<le> int (length v - 1)" by (rule wn_pnpoly_abs)
    also have "\<dots> < 2 ^ 32" using that by (cases v) simp_all
    finally show ?thesis .
  qed
  have "length (coverage ps v) = length ps"
    by (simp add: coverage_def wn_multipnpoly_def)
  then show ?thesis using a b by blast
qed

theorem coverage_indicator_bounded_witness:
  "length [(0, 0), (1, 1) :: int \<times> int] = 2
   \<and> \<bar>wn_pnpoly ([(0, 0), (1, 1)] ! 0) (tests_v :: (int \<times> int) list)\<bar> < 2 ^ 32
   \<and> length (tests_v :: (int \<times> int) list) \<le> 2 ^ 32
   \<and> coverage [(0, 0), (1, 1)] (tests_v :: (int \<times> int) list) ! 0 = 1
   \<and> coverage [(0, 0), (1, 1)] (tests_v :: (int \<times> int) list) ! 1 = 0"
proof -
  let ?ps = "[(0, 0), (1, 1)] :: (int \<times> int) list"
  let ?v = "tests_v :: (int \<times> int) list"
  have h: "length ?v \<le> 2 ^ 32"
    by (simp add: tests_v_def)
  have w: "\<bar>wn_pnpoly (?ps ! 0) ?v\<bar> < 2 ^ 32"
    by (simp add: wn_tests_inside)
  note ci = coverage_indicator_bounded [of ?ps ?v, THEN conjunct2]
  have "coverage ?ps ?v ! 0 = (if wn_pnpoly (?ps ! 0) ?v \<noteq> 0 then 1 else 0)"
    by (rule ci [THEN conjunct1, rule_format, of 0]) (simp, rule w)
  moreover have "coverage ?ps ?v ! 1 = (if wn_pnpoly (?ps ! 1) ?v \<noteq> 0 then 1 else 0)"
    by (rule ci [THEN conjunct2, rule_format, of 1]) (rule h, simp)
  ultimately show ?thesis using h w
    by (simp add: wn_tests_inside wn_tests_outside)
qed

text \<open>
  The bound is needed: the winding number is stored in an int32.  The triangle of the
  tests run through \<open>2^32\<close> times winds \<open>2^32\<close> times around the point \<open>(0,0)\<close>, the
  stored value is 0, and so is the entry of \<open>coverage\<close>.
\<close>

theorem coverage_indicator_counterexample:
  "wn_pnpoly (0, 0) (wound (2 ^ 32) :: (int \<times> int) list) = 2 ^ 32
   \<and> coverage [(0, 0)] (wound (2 ^ 32) :: (int \<times> int) list) = [0]"
proof -
  have w: "wn_pnpoly (0, 0) (wound (2 ^ 32) :: (int \<times> int) list) = 2 ^ 32"
    unfolding wn_pnpoly_wound by simp
  have "coverage [(0, 0)] (wound (2 ^ 32) :: (int \<times> int) list)
        = [if (word_of_int (wn_pnpoly (0, 0) (wound (2 ^ 32) :: (int \<times> int) list)) :: int32) \<noteq> 0
           then 1 else 0]"
    by (simp only: coverage_def wn_multipnpoly_def list.map)
  also have "\<dots> = [0]" unfolding w by simp
  finally show ?thesis using w by simp
qed

subsection \<open>Bounds of the coverage counts\<close>

text \<open>
  C8 (as amended): for every pixel list and every non-empty list of \<open>n < 2^31\<close> polygons,
  \<open>coverage_all\<close> returns an array of length \<open>len(pixels)\<close> whose every cell, read as a
  signed 32-bit integer, is at least 0 and at most \<open>n\<close>.
\<close>

theorem coverage_all_bounds:
  assumes "polygons \<noteq> []" and "length polygons < 2 ^ 31"
  shows "\<exists>img. coverage_all pixels polygons = Inr img \<and> length img = length pixels \<and>
           (\<forall>c\<in>set img. 0 \<le> sint c \<and> sint c \<le> int (length polygons))"
proof -
  obtain v vs where p: "polygons = v # vs" using assms(1) by (cases polygons) auto
  let ?img = "map (\<lambda>p. of_nat (sum_list (map (ind p) polygons)) :: int32) pixels"
  have 1: "coverage_all pixels polygons = Inr ?img"
    unfolding p by (rule coverage_all_count)
  have "0 \<le> sint c \<and> sint c \<le> int (length polygons)" if "c \<in> set ?img" for c
  proof -
    from that obtain q where c: "c = of_nat (sum_list (map (ind q) polygons))" by auto
    have le: "sum_list (map (ind q) polygons) \<le> length polygons" by (rule sum_ind_le)
    then have "sum_list (map (ind q) polygons) < 2 ^ 31" using assms(2) by linarith
    then have "sint c = int (sum_list (map (ind q) polygons))"
      unfolding c by (rule sint_of_nat_small)
    then show ?thesis using le by simp
  qed
  then show ?thesis using 1 by simp
qed

theorem coverage_all_bounds_witness:
  "[tests_v, tests_v :: (int \<times> int) list] \<noteq> []
   \<and> length [tests_v, tests_v :: (int \<times> int) list] < 2 ^ 31
   \<and> coverage_all [(0, 0), (1, 1)] [tests_v, tests_v :: (int \<times> int) list] = Inr [2, 0]
   \<and> 0 \<le> sint (2 :: int32) \<and> sint (2 :: int32) \<le> 2"
proof -
  have e: "coverage_all [(0, 0), (1, 1)] [tests_v, tests_v :: (int \<times> int) list] = Inr [2, 0]"
    by (simp add: coverage_all_def coverage_def wn_multipnpoly_def iadd_def
        wn_tests_inside wn_tests_outside)
  from coverage_all_bounds [of "[tests_v, tests_v :: (int \<times> int) list]" "[(0, 0), (1, 1)]"]
  obtain img where "coverage_all [(0, 0), (1, 1)] [tests_v, tests_v :: (int \<times> int) list] = Inr img"
    and "\<forall>c\<in>set img. 0 \<le> sint c \<and> sint c \<le> int (length [tests_v, tests_v :: (int \<times> int) list])"
    by auto
  with e have "0 \<le> sint (2 :: int32) \<and> sint (2 :: int32) \<le> 2" by auto
  with e show ?thesis by simp
qed

text \<open>
  The bound on \<open>n\<close> is needed: the cells are int32 and \<open>+=\<close> wraps around.  With
  \<open>2^31\<close> copies of the triangle of the tests, the cell of the pixel \<open>(0,0)\<close> is
  \<open>-2^31\<close>.
\<close>

theorem coverage_all_bounds_counterexample:
  "coverage_all [(0, 0)] (replicate (2 ^ 31) (tests_v :: (real \<times> real) list))
     = Inr [of_nat (2 ^ 31)]
   \<and> sint (of_nat (2 ^ 31) :: int32) < 0"
proof -
  let ?vs = "replicate (2 ^ 31) (tests_v :: (real \<times> real) list)"
  have r: "?vs = tests_v # replicate (2 ^ 31 - 1) tests_v"
    by (simp only: replicate_Suc [symmetric]) simp
  have s: "sum_list (map (ind (0, 0)) ?vs) = 2 ^ 31"
    by (simp only: map_replicate sum_list_replicate ind_tests) simp
  have "coverage_all [(0, 0)] ?vs
        = Inr (map (\<lambda>p. of_nat (sum_list (map (ind p) ?vs))) [(0, 0)])"
    by (subst (1 2) r) (rule coverage_all_count)
  also have "\<dots> = Inr [of_nat (2 ^ 31)]"
    by (simp only: list.map s)
  finally have "coverage_all [(0, 0)] ?vs = Inr [of_nat (2 ^ 31)]" .
  moreover have "sint (of_nat (2 ^ 31) :: int32) < 0"
    by (simp add: signed_of_nat)
  ultimately show ?thesis by simp
qed

subsection \<open>Malformed polygons\<close>

text \<open>No array read of the loop is out of range, whatever the polygon.\<close>

lemma wn_body_on_ok:
  assumes "i + 1 < length v"
  shows "\<exists>w. wn_body_on A p v i wn = Inr w"
  using assms by (simp add: wn_body_on_def item_def)

lemma for_range_ok:
  assumes "\<And>i wn. i \<in> set is \<Longrightarrow> \<exists>w. body i wn = Inr w"
  shows "\<exists>w. for_range body is wn = Inr w"
  using assms
proof (induction "is" arbitrary: wn)
  case Nil
  then show ?case by simp
next
  case (Cons i "is")
  obtain w where "body i wn = Inr w" using Cons.prems [of i wn] by auto
  then show ?case using Cons.IH [of w] Cons.prems by simp
qed

lemma wn_pnpoly_on_ok: "\<exists>w. wn_pnpoly_on A p v = Inr w"
  unfolding wn_pnpoly_on_def
  by (rule for_range_ok) (rule wn_body_on_ok, auto)

lemma wn_multipnpoly_on_ok: "\<exists>ws. wn_multipnpoly_on A ps v = Inr ws \<and> length ws = length ps"
proof (induction ps)
  case Nil
  then show ?case by simp
next
  case (Cons p ps)
  obtain w where "wn_pnpoly_on A p v = Inr w" using wn_pnpoly_on_ok by blast
  then show ?case using Cons by auto
qed

lemma coverage_on_ok:
  "\<exists>img. coverage_on A pixels v = Inr img \<and> length img = length pixels \<and>
         list_all (\<lambda>c. c = 0 \<or> c = 1) img"
proof -
  obtain ws where "wn_multipnpoly_on A pixels v = Inr ws" "length ws = length pixels"
    using wn_multipnpoly_on_ok by blast
  then show ?thesis by (auto simp: coverage_on_def list_all_iff)
qed

lemma accumulate_on_ok:
  "length img = length pixels \<Longrightarrow>
   \<exists>img'. accumulate_on A pixels vs img = Inr img' \<and> length img' = length pixels"
proof (induction vs arbitrary: img)
  case Nil
  then show ?case by simp
next
  case (Cons v vs)
  obtain c where c: "coverage_on A pixels v = Inr c" "length c = length pixels"
    using coverage_on_ok by blast
  then have "length (iadd img c) = length pixels" using Cons.prems by (simp add: iadd_def)
  from Cons.IH [OF this] show ?case using c by simp
qed

lemma coverage_all_on_ok:
  "\<exists>img. coverage_all_on A pixels (v # vs) = Inr img \<and> length img = length pixels"
proof -
  obtain c where c: "coverage_on A pixels v = Inr c" "length c = length pixels"
    using coverage_on_ok by blast
  from accumulate_on_ok [OF c(2)] show ?thesis using c by (simp add: coverage_all_on_def)
qed

text \<open>On the exact arithmetic of an ordered ring the checked code is the code above.\<close>

lemma is_left_on_ring: "is_left_on ring_arith = is_left"
  by (intro ext) (simp add: is_left_on_def is_left_def ring_arith_def)

lemma wn_body_on_ring:
  "i + 1 < length v \<Longrightarrow> wn_body_on ring_arith p v i wn = Inr (wn_body p v i wn)"
  by (simp add: wn_body_on_def wn_body_def item_def is_left_on_ring) (simp add: ring_arith_def)

lemma for_range_fold:
  assumes "\<And>i wn. i \<in> set is \<Longrightarrow> body i wn = Inr (f i wn)"
  shows "for_range body is wn = Inr (fold f is wn)"
  using assms by (induction "is" arbitrary: wn) simp_all

lemma wn_pnpoly_on_ring: "wn_pnpoly_on ring_arith p v = Inr (wn_pnpoly p v)"
  unfolding wn_pnpoly_on_def wn_pnpoly_def
  by (rule for_range_fold) (rule wn_body_on_ring, auto)

lemma wn_multipnpoly_on_ring: "wn_multipnpoly_on ring_arith ps v = Inr (wn_multipnpoly ps v)"
  by (induction ps) (simp_all add: wn_pnpoly_on_ring wn_multipnpoly_def)

lemma coverage_on_ring: "coverage_on ring_arith pixels v = Inr (coverage pixels v)"
  by (simp add: coverage_on_def coverage_def wn_multipnpoly_on_ring)

lemma accumulate_on_ring:
  "accumulate_on ring_arith pixels vs img
   = Inr (fold (\<lambda>polygon img. iadd img (coverage pixels polygon)) vs img)"
  by (induction vs arbitrary: img) (simp_all add: coverage_on_ring)

lemma coverage_all_on_ring: "coverage_all_on ring_arith pixels polygons = coverage_all pixels polygons"
  by (cases polygons) (simp_all add: coverage_all_on_def coverage_all_def coverage_on_ring accumulate_on_ring)

text \<open>
  C4 (as amended): the coverage computation validates nothing.  For every polygon with
  fewer than 3 distinct vertices or with a non-finite coordinate, as for every other
  polygon, and whatever the comparisons and the arithmetic of the coordinates do,
  \<open>coverage\<close> raises no error and returns an int32 array of length \<open>len(pixels)\<close> with
  entries 0 or 1, and \<open>coverage_all\<close> on a list holding the polygon raises no error and
  returns an array of that length.
\<close>

theorem coverage_no_validation:
  "(\<exists>img. coverage_on A pixels v = Inr img \<and> length img = length pixels \<and>
           list_all (\<lambda>c. c = 0 \<or> c = 1) img)
   \<and> (\<exists>img. coverage_all_on A pixels (v # vs) = Inr img \<and> length img = length pixels)"
  using coverage_on_ok [of A pixels v] coverage_all_on_ok [of A pixels v vs] by blast

text \<open>
  Examples with floating-point values: a polygon with a NaN vertex (it covers the pixel
  \<open>(0,0)\<close> and not \<open>(1,1)\<close>), one with infinite coordinates, and one with two distinct
  vertices.
\<close>

lemma coverage_nan_example:
  "coverage_all_on ieee [(Fin 0, Fin 0), (Fin 1, Fin 1)]
     [[(NaN, NaN), (Fin 1, Fin (- 1)), (Fin 0, Fin 1), (NaN, NaN)]] = Inr [1, 0]"
  by (simp add: coverage_all_on_def coverage_on_def wn_pnpoly_on_def upt_3 wn_body_on_def
      item_def is_left_on_def ieee_def fl_sub_def)

lemma coverage_inf_example:
  "coverage_all_on ieee [(Fin 0, Fin 0), (Fin 1, Fin 1)]
     [[(Fin (- 1), Fin (- 1)), (PInf, Fin (- 1)), (Fin 0, PInf), (Fin (- 1), Fin (- 1))]] = Inr [0, 0]"
  by (simp add: coverage_all_on_def coverage_on_def wn_pnpoly_on_def upt_3 wn_body_on_def
      item_def is_left_on_def ieee_def fl_sub_def)

lemma coverage_two_vertex_example:
  "coverage_all_on ieee [(Fin 0, Fin 0)] [[(Fin 0, Fin 0), (Fin 1, Fin 1), (Fin 0, Fin 0)]] = Inr [0]"
  by (simp add: coverage_all_on_def coverage_on_def wn_pnpoly_on_def upt_rec numeral_2_eq_2
      wn_body_on_def item_def is_left_on_def ieee_def fl_sub_def)

text \<open>
  The polygon \<open>[(0,0),(1,1),(0,0)]\<close> has two distinct vertices, and the coverage of the
  pixel \<open>(0,0)\<close> is the value 0, not an error; the polygon with a NaN vertex gives the
  value 1, not an error.
\<close>

theorem coverage_degenerate_counterexample:
  "coverage_all [(0, 0)] [([(0, 0), (1, 1), (0, 0)] :: (real \<times> real) list)] = Inr [0]
   \<and> coverage_all_on ieee [(Fin 0, Fin 0)]
         [[(NaN, NaN), (Fin 1, Fin (- 1)), (Fin 0, Fin 1), (NaN, NaN)]] = Inr [1]"
proof -
  have "coverage_all [(0, 0)] [([(0, 0), (1, 1), (0, 0)] :: (real \<times> real) list)] = Inr [0]"
    by (simp add: coverage_all_def coverage_def wn_multipnpoly_def wn_pnpoly_def upt_rec
        numeral_2_eq_2 wn_body_def is_left_def)
  moreover have "coverage_all_on ieee [(Fin 0, Fin 0)]
         [[(NaN, NaN), (Fin 1, Fin (- 1)), (Fin 0, Fin 1), (NaN, NaN)]] = Inr [1]"
    by (simp add: coverage_all_on_def coverage_on_def wn_pnpoly_on_def upt_3 wn_body_on_def
        item_def is_left_on_def ieee_def fl_sub_def)
  ultimately show ?thesis by simp
qed

subsection \<open>The pixel grid and the image\<close>

lemma length_linspace: "linspace a b n = Inr xs \<Longrightarrow> length xs = nat n"
  by (auto simp: linspace_def split: if_splits)

lemma linspace_ok: "0 \<le> n \<Longrightarrow> \<exists>xs. linspace a b n = Inr xs"
  by (simp add: linspace_def)

lemma nth_concat_grid:
  "i < m \<Longrightarrow> j < n \<Longrightarrow> concat (map (\<lambda>i. map (f i) [0..<n]) [0..<m]) ! (i * n + j) = f i j"
proof (induction m)
  case 0
  then show ?case by simp
next
  case (Suc m)
  have len: "length (concat (map (\<lambda>i. map (f i) [0..<n]) [0..<m])) = m * n"
    by (induction m) simp_all
  show ?case
  proof (cases "i < m")
    case True
    then have "Suc i * n \<le> m * n" by (intro mult_le_mono1) simp
    then have "i * n + j < m * n" using Suc.prems(2) by simp
    then show ?thesis using Suc True by (simp add: nth_append len)
  next
    case False
    then have "i = m" using Suc.prems(1) by simp
    then show ?thesis using Suc.prems(2) by (simp add: nth_append len)
  qed
qed


lemma length_concat_grid: "length (concat (map (\<lambda>i. map (f i) [0..<n]) [0..<m])) = m * n"
  by (induction m) simp_all

lemma grid_index_less: "i < m \<Longrightarrow> j < n \<Longrightarrow> i * n + j < m * (n::nat)"
proof -
  assume "i < m" "j < n"
  then have "Suc i * n \<le> m * n" by (intro mult_le_mono1) simp
  then show ?thesis using \<open>j < n\<close> by simp
qed

lemma nth_chunks:
  assumes "i < rows" "j < cols" "length xs = rows * cols"
  shows "chunks rows cols xs ! i ! j = xs ! (i * cols + j)"
proof -
  have "i * cols + j < length xs" using assms by (simp add: grid_index_less)
  then show ?thesis using assms by (simp add: chunks_def)
qed

lemma nth_T2:
  "i < rows \<Longrightarrow> j < cols \<Longrightarrow> T2 (rows, cols, r) ! j ! i = r ! i ! j"
  by (simp add: T2_def)

lemma reshape2_ok:
  "0 \<le> n \<Longrightarrow> 0 \<le> m \<Longrightarrow> length a = nat n * nat m \<Longrightarrow>
   reshape2 a n m = Inr (nat n, nat m, chunks (nat n) (nat m) a)"
  by (simp add: reshape2_def)

lemma flatten_T2_chunks:
  assumes "length xs = rows * cols"
  shows "concat (map (\<lambda>i. map (\<lambda>j. T2 (rows, cols, chunks rows cols xs) ! j ! i) [0..<cols])
                   [0..<rows]) = xs"
proof (rule nth_equalityI)
  show "length (concat (map (\<lambda>i. map (\<lambda>j. T2 (rows, cols, chunks rows cols xs) ! j ! i) [0..<cols])
                   [0..<rows])) = length xs"
    using assms by (simp add: length_concat_grid)
next
  fix k
  assume "k < length (concat (map (\<lambda>i. map (\<lambda>j. T2 (rows, cols, chunks rows cols xs) ! j ! i) [0..<cols])
                   [0..<rows]))"
  then have k: "k < rows * cols" by (simp add: length_concat_grid)
  then have c: "0 < cols" by (cases cols) simp_all
  have i: "k div cols < rows" using k c by (simp add: less_mult_imp_div_less)
  have j: "k mod cols < cols" using c by simp
  have e: "k = (k div cols) * cols + k mod cols" by simp
  have "concat (map (\<lambda>i. map (\<lambda>j. T2 (rows, cols, chunks rows cols xs) ! j ! i) [0..<cols])
                   [0..<rows]) ! ((k div cols) * cols + k mod cols)
        = T2 (rows, cols, chunks rows cols xs) ! (k mod cols) ! (k div cols)"
    using i j by (rule nth_concat_grid)
  also have "\<dots> = chunks rows cols xs ! (k div cols) ! (k mod cols)"
    using i j by (rule nth_T2)
  also have "\<dots> = xs ! ((k div cols) * cols + k mod cols)"
    using i j assms by (rule nth_chunks)
  finally show "concat (map (\<lambda>i. map (\<lambda>j. T2 (rows, cols, chunks rows cols xs) ! j ! i) [0..<cols])
                   [0..<rows]) ! k = xs ! k"
    by simp
qed


lemma make_pixels_grid:
  assumes "linspace xmin xmax nx = Inr xs" and "linspace ymin ymax ny = Inr ys"
  shows "make_pixels (xmin, ymin, xmax, ymax) (nx, ny)
         = Inr (concat (map (\<lambda>i. map (\<lambda>j. (xs ! i, ys ! j)) [0..<length ys]) [0..<length xs]))"
proof -
  have g: "map (\<lambda>i. map (\<lambda>j. (replicate (length ys) xs ! j ! i,
                             map (replicate (length xs)) ys ! j ! i)) [0..<length ys])
          [0..<length xs]
        = map (\<lambda>i. map (\<lambda>j. (xs ! i, ys ! j)) [0..<length ys]) [0..<length xs]"
    by (simp cong: map_cong)
  have "make_pixels (xmin, ymin, xmax, ymax) (nx, ny)
        = Inr (concat (map (\<lambda>i. map (\<lambda>j. (replicate (length ys) xs ! j ! i,
                             map (replicate (length xs)) ys ! j ! i)) [0..<length ys])
          [0..<length xs]))"
    by (simp add: make_pixels_def meshgrid_def assms)
  then show ?thesis by (simp only: g)
qed

lemma make_image_ok:
  assumes "2 \<le> nx" and "2 \<le> ny" and "length cover = nat nx * nat ny"
  shows "\<exists>x y. make_image pixels cover (xmin, ymin, xmax, ymax) (nx, ny)
               = Inr (x, y, T2 (nat nx, nat ny, chunks (nat nx) (nat ny) cover))
             \<and> int (length x) = nx + 1 \<and> int (length y) = ny + 1"
proof -
  let ?dx = "(xmax - xmin) / real_of_int (nx - 1)"
  let ?dy = "(ymax - ymin) / real_of_int (ny - 1)"
  obtain x where x: "linspace (xmin - ?dx / 2) (xmax + ?dx / 2) (nx + 1) = Inr x"
    using linspace_ok [of "nx + 1"] assms(1) by fastforce
  obtain y where y: "linspace (ymin - ?dy / 2) (ymax + ?dy / 2) (ny + 1) = Inr y"
    using linspace_ok [of "ny + 1"] assms(2) by fastforce
  have r: "reshape2 cover nx ny = Inr (nat nx, nat ny, chunks (nat nx) (nat ny) cover)"
    using assms by (intro reshape2_ok) simp_all
  have "make_image pixels cover (xmin, ymin, xmax, ymax) (nx, ny)
        = Inr (x, y, T2 (nat nx, nat ny, chunks (nat nx) (nat ny) cover))"
    using assms(1,2) x y r by (simp add: make_image_def Let_def)
  moreover have "int (length x) = nx + 1" "int (length y) = ny + 1"
    using length_linspace [OF x] length_linspace [OF y] assms(1,2) by simp_all
  ultimately show ?thesis by blast
qed

text \<open>
  The two functions on a grid of 2 by 3 pixels: the pixels are listed with \<open>x\<close> outermost,
  and the image has one row per \<open>y\<close>.
\<close>

lemma upt_2: "[0..<2] = [0, 1]"
  by (simp add: upt_rec)

lemma upt_4: "[0..<4] = [0, 1, 2, 3]"
  by (simp add: upt_rec)

lemma make_image_example:
  "make_image [] [1, 2, 3, 4, 5, 6 :: int] (0, 0, 1, 2) (2, 3)
   = Inr ([- 1 / 2, 1 / 2, 3 / 2], [- 1 / 2, 1 / 2, 3 / 2, 5 / 2], [[1, 4], [2, 5], [3, 6]])"
  by (simp add: make_image_def linspace_def reshape2_def chunks_def T2_def Let_def upt_2 upt_3 upt_4)

lemma make_pixels_example:
  "make_pixels (0, 0, 1, 2) (2, 3) = Inr [(0, 0), (0, 1), (0, 2), (1, 0), (1, 1), (1, 2)]"
  by (simp add: make_pixels_def linspace_def meshgrid_def upt_2 upt_3)

text \<open>
  C6: for every extent, every size \<open>(n_lon, n_lat)\<close> with \<open>n_lon \<ge> 2\<close> and \<open>n_lat \<ge> 2\<close>
  and every coverage vector of length \<open>n_lon * n_lat\<close>, \<open>make_pixels\<close> and \<open>make_image\<close>
  return, the pixel at position \<open>i * n_lat + j\<close> is \<open>(x_i, y_j)\<close>, the image satisfies
  \<open>image[j][i] = coverage[i * n_lat + j]\<close> for all \<open>i < n_lon\<close> and \<open>j < n_lat\<close>, and
  reading the image in the order of the pixels gives the coverage vector back.
\<close>

theorem grid_round_trip:
  assumes "2 \<le> nx" and "2 \<le> ny" and "length cover = nat nx * nat ny"
  shows "\<exists>pixels xs ys x y img.
     linspace xmin xmax nx = Inr xs \<and> linspace ymin ymax ny = Inr ys \<and>
     make_pixels (xmin, ymin, xmax, ymax) (nx, ny) = Inr pixels \<and>
     make_image pixels cover (xmin, ymin, xmax, ymax) (nx, ny) = Inr (x, y, img) \<and>
     length pixels = nat nx * nat ny \<and>
     (\<forall>i<nat nx. \<forall>j<nat ny.
         pixels ! (i * nat ny + j) = (xs ! i, ys ! j) \<and>
         img ! j ! i = cover ! (i * nat ny + j)) \<and>
     concat (map (\<lambda>i. map (\<lambda>j. img ! j ! i) [0..<nat ny]) [0..<nat nx]) = cover"
proof -
  obtain xs where xs: "linspace xmin xmax nx = Inr xs"
    using linspace_ok [of nx] assms(1) by fastforce
  obtain ys where ys: "linspace ymin ymax ny = Inr ys"
    using linspace_ok [of ny] assms(2) by fastforce
  have lx: "length xs = nat nx" and ly: "length ys = nat ny"
    using length_linspace [OF xs] length_linspace [OF ys] by simp_all
  let ?pixels = "concat (map (\<lambda>i. map (\<lambda>j. (xs ! i, ys ! j)) [0..<nat ny]) [0..<nat nx])"
  let ?img = "T2 (nat nx, nat ny, chunks (nat nx) (nat ny) cover)"
  have p: "make_pixels (xmin, ymin, xmax, ymax) (nx, ny) = Inr ?pixels"
    using make_pixels_grid [OF xs ys] by (simp add: lx ly)
  obtain x y where m: "make_image ?pixels cover (xmin, ymin, xmax, ymax) (nx, ny) = Inr (x, y, ?img)"
    using make_image_ok [OF assms] by blast
  have len: "length ?pixels = nat nx * nat ny"
    by (rule length_concat_grid)
  have nth: "?pixels ! (i * nat ny + j) = (xs ! i, ys ! j) \<and> ?img ! j ! i = cover ! (i * nat ny + j)"
    if "i < nat nx" "j < nat ny" for i j
    using that assms(3) by (simp add: nth_concat_grid nth_T2 nth_chunks)
  have flat: "concat (map (\<lambda>i. map (\<lambda>j. ?img ! j ! i) [0..<nat ny]) [0..<nat nx]) = cover"
    using assms(3) by (rule flatten_T2_chunks)
  show ?thesis
    using xs ys p m len nth flat by blast
qed

theorem grid_round_trip_witness:
  "(2 :: int) \<le> 2 \<and> (2 :: int) \<le> 3 \<and> length [1, 2, 3, 4, 5, 6 :: int] = nat 2 * nat 3 \<and>
   (\<exists>pixels xs ys x y img.
     linspace 0 1 2 = Inr xs \<and> linspace 0 2 3 = Inr ys \<and>
     make_pixels (0, 0, 1, 2) (2, 3) = Inr pixels \<and>
     make_image pixels [1, 2, 3, 4, 5, 6 :: int] (0, 0, 1, 2) (2, 3) = Inr (x, y, img) \<and>
     length pixels = nat 2 * nat 3 \<and>
     (\<forall>i<nat 2. \<forall>j<nat 3.
         pixels ! (i * nat 3 + j) = (xs ! i, ys ! j) \<and>
         img ! j ! i = [1, 2, 3, 4, 5, 6 :: int] ! (i * nat 3 + j)) \<and>
     concat (map (\<lambda>i. map (\<lambda>j. img ! j ! i) [0..<nat 3]) [0..<nat 2]) = [1, 2, 3, 4, 5, 6])"
proof -
  have a: "(2 :: int) \<le> 2" and b: "(2 :: int) \<le> 3" by simp_all
  have c: "length [1, 2, 3, 4, 5, 6 :: int] = nat 2 * nat 3" by simp
  from grid_round_trip [OF a b c, of 0 1 0 2] a b c show ?thesis by blast
qed

lemma linspace_error: "linspace a b n = Inl e \<Longrightarrow> e = ValueError"
  by (auto simp: linspace_def split: if_splits)

lemma reshape2_error: "reshape2 a n m = Inl e \<Longrightarrow> e = ValueError"
  by (auto simp: reshape2_def split: if_splits)

lemma make_image_zero_division_iff:
  "make_image pixels cover extent (nx, ny) = Inl ZeroDivisionError \<longleftrightarrow> nx = 1 \<or> ny = 1"
proof -
  obtain xmin ymin xmax ymax where e: "extent = (xmin, ymin, xmax, ymax)"
    by (cases extent) auto
  show ?thesis
    unfolding e
    by (auto simp: make_image_def Let_def split: sum.splits
        dest: linspace_error reshape2_error)
qed

text \<open>
  C10 (as amended): \<open>make_image\<close> divides by \<open>n_lon - 1\<close> and \<open>n_lat - 1\<close>.  For an
  extent of Python numbers it raises ZeroDivisionError exactly when \<open>n_lon = 1\<close> or
  \<open>n_lat = 1\<close>.  When both sizes are at least 2 and the coverage vector has length
  \<open>n_lon * n_lat\<close> it returns edge arrays of lengths \<open>n_lon + 1\<close> and \<open>n_lat + 1\<close>; with
  a coverage vector of another length the reshape raises ValueError.
\<close>

theorem make_image_zero_division:
  "(make_image pixels cover extent (nx, ny) = Inl ZeroDivisionError \<longleftrightarrow> nx = 1 \<or> ny = 1)
   \<and> (2 \<le> nx \<and> 2 \<le> ny \<and> length cover = nat nx * nat ny \<longrightarrow>
        (\<exists>x y img. make_image pixels cover extent (nx, ny) = Inr (x, y, img) \<and>
           int (length x) = nx + 1 \<and> int (length y) = ny + 1))
   \<and> (2 \<le> nx \<and> 2 \<le> ny \<and> length cover \<noteq> nat nx * nat ny \<longrightarrow>
        make_image pixels cover extent (nx, ny) = Inl ValueError)"
proof -
  obtain xmin ymin xmax ymax where e: "extent = (xmin, ymin, xmax, ymax)"
    by (cases extent) auto
  have ok: "\<exists>x y img. make_image pixels cover extent (nx, ny) = Inr (x, y, img) \<and>
            int (length x) = nx + 1 \<and> int (length y) = ny + 1"
    if "2 \<le> nx" "2 \<le> ny" "length cover = nat nx * nat ny"
    using make_image_ok [OF that, of pixels xmin ymin xmax ymax] unfolding e by blast
  have bad: "make_image pixels cover extent (nx, ny) = Inl ValueError"
    if "2 \<le> nx" "2 \<le> ny" "length cover \<noteq> nat nx * nat ny"
    using that by (auto simp: make_image_def e Let_def linspace_def reshape2_def)
  show ?thesis using make_image_zero_division_iff [of pixels cover extent nx ny] ok bad by blast
qed

theorem make_image_zero_division_witness:
  "((2 :: int) \<le> 2 \<and> (2 :: int) \<le> 3 \<and> length [1, 2, 3, 4, 5, 6 :: int] = nat 2 * nat 3)
   \<and> (\<exists>x y img. make_image [] [1, 2, 3, 4, 5, 6 :: int] (0, 0, 1, 2) (2, 3) = Inr (x, y, img)
         \<and> int (length x) = 2 + 1 \<and> int (length y) = 3 + 1)
   \<and> make_image [(0, 0)] [7 :: int] (0, 0, 0, 0) (1, 1) = Inl ZeroDivisionError
   \<and> make_image [] [1, 2, 3, 4, 5, 6 :: int] (0, 0, 1, 2) (2, 3) \<noteq> Inl ZeroDivisionError
   \<and> length [1, 2, 3 :: int] \<noteq> nat 2 * nat 3
   \<and> make_image [] [1, 2, 3 :: int] (0, 0, 1, 2) (2, 3) = Inl ValueError"
proof -
  have a: "(2 :: int) \<le> 2 \<and> (2 :: int) \<le> 3" by simp
  have c: "length [1, 2, 3, 4, 5, 6 :: int] = nat 2 * nat 3" by simp
  have d: "length [1, 2, 3 :: int] \<noteq> nat 2 * nat 3" by simp
  have n: "\<not> ((2 :: int) = 1 \<or> (3 :: int) = 1)" by simp
  note t = make_image_zero_division [of "[]" "[1, 2, 3, 4, 5, 6 :: int]" "(0, 0, 1, 2)" 2 3]
  note u = make_image_zero_division [of "[(0, 0)]" "[7 :: int]" "(0, 0, 0, 0)" 1 1]
  note w = make_image_zero_division [of "[]" "[1, 2, 3 :: int]" "(0, 0, 1, 2)" 2 3]
  from t a c n have "make_image [] [1, 2, 3, 4, 5, 6 :: int] (0, 0, 1, 2) (2, 3) \<noteq> Inl ZeroDivisionError"
    and "\<exists>x y img. make_image [] [1, 2, 3, 4, 5, 6 :: int] (0, 0, 1, 2) (2, 3) = Inr (x, y, img)
         \<and> int (length x) = 2 + 1 \<and> int (length y) = 3 + 1"
    by blast+
  moreover from u have "make_image [(0, 0)] [7 :: int] (0, 0, 0, 0) (1, 1) = Inl ZeroDivisionError"
    by blast
  moreover from w a d have "make_image [] [1, 2, 3 :: int] (0, 0, 1, 2) (2, 3) = Inl ValueError"
    by blast
  ultimately show ?thesis using a c d by blast
qed

text \<open>
  A size below 2 is not always an error: for the zero-size grid \<open>(0, 3)\<close> and an empty
  coverage vector the call returns.
\<close>

theorem make_image_zero_size_counterexample:
  "make_image [] ([] :: int list) (0, 0, 1, 2) (0, 3)
   = Inr ([1 / 2], [- 1 / 2, 1 / 2, 3 / 2, 5 / 2], [[], [], []])"
  by (simp add: make_image_def linspace_def reshape2_def chunks_def T2_def Let_def upt_3 upt_4)

subsection \<open>Rotation matrices\<close>

lemma vec_mat_T: "vec_mat v (mat_T m) = mat_vec m v"
  by (cases m rule: prod_cases3; cases v)
     (auto simp: vec_mat_def mat_vec_def mat_T_def dot_def split: prod.splits)

lemma rot_mat_0: "rot_mat 0 0 = identity3"
  by (simp add: rot_mat_def radians_def matmul_def vec_mat_def mat_T_def dot_def identity3_def)

lemma mat_vec_identity: "mat_vec identity3 v = v"
  by (cases v) (simp add: mat_vec_def identity3_def dot_def)

lemma map_mat_vec_identity: "map (mat_vec identity3) vs = vs"
  by (induction vs) (simp_all add: mat_vec_identity)

lemma rot_mat_entries:
  "rot_mat lon lat =
     ((cos (radians lon) * cos (radians lat), - sin (radians lon), - (cos (radians lon) * sin (radians lat))),
      (sin (radians lon) * cos (radians lat), cos (radians lon), - (sin (radians lon) * sin (radians lat))),
      (sin (radians lat), 0, cos (radians lat)))"
  by (simp add: rot_mat_def matmul_def vec_mat_def mat_T_def dot_def Let_def)

lemma sin_cos_sq: "sin x * sin x + cos x * cos x = (1::real)"
  using sin_cos_squared_add [of x] by (simp add: power2_eq_square)

lemma to_vec_single:
  "to_vec [(lon, lat)]
   = [(cos (radians lat) * cos (radians lon), cos (radians lat) * sin (radians lon), sin (radians lat))]"
  by (simp add: to_vec_def Let_def sin_diff cos_diff)

text \<open>
  C3 (as amended): for every \<open>lon\<close> and \<open>lat\<close>, \<open>rot_mat lon lat\<close> is a rotation matrix
  (orthogonal, of determinant 1) that maps the unit vector \<open>(1,0,0)\<close>, the direction of
  the origin \<open>lon = 0, lat = 0\<close>, to the unit vector of the point at \<open>(lon, lat)\<close>.
\<close>

theorem rot_mat_reference:
  "to_vec [(lon, lat)] = [mat_vec (rot_mat lon lat) (1, 0, 0)]
   \<and> matmul (rot_mat lon lat) (mat_T (rot_mat lon lat)) = identity3
   \<and> det3 (rot_mat lon lat) = 1"
proof (intro conjI)
  show "to_vec [(lon, lat)] = [mat_vec (rot_mat lon lat) (1, 0, 0)]"
    by (simp add: to_vec_single rot_mat_entries mat_vec_def dot_def mult.commute)
  have l: "sin (radians lon) * sin (radians lon) + cos (radians lon) * cos (radians lon) = 1"
    by (rule sin_cos_sq)
  have a: "sin (radians lat) * sin (radians lat) + cos (radians lat) * cos (radians lat) = 1"
    by (rule sin_cos_sq)
  show "matmul (rot_mat lon lat) (mat_T (rot_mat lon lat)) = identity3"
    unfolding rot_mat_entries
    apply (simp add: matmul_def vec_mat_def mat_T_def dot_def identity3_def)
    using l a apply algebra
    done
  show "det3 (rot_mat lon lat) = 1"
    unfolding rot_mat_entries
    apply (simp add: det3_def)
    using l a apply algebra
    done
qed

text \<open>
  The pole \<open>(0,0,1)\<close> is not what is mapped to the point: \<open>rot_mat 0 0\<close> is the identity
  and leaves the pole where it is, while the point at \<open>(0, 0)\<close> is \<open>(1,0,0)\<close>.
\<close>

theorem rot_mat_pole_counterexample:
  "[mat_vec (rot_mat 0 0) (0, 0, 1)] \<noteq> to_vec [(0, 0)]"
  by (simp add: rot_mat_0 mat_vec_identity to_vec_def radians_def)

subsection \<open>The poles\<close>



text \<open>
  In floating point the vector of the south pole has a horizontal part of size
  \<open>1.2e-16\<close>, since the sine of the rounded \<open>pi\<close> is not 0, and the zeros of the north
  pole are signed.  The reals have neither, and the theorem above states only what
  does not depend on them.
\<close>

subsection \<open>Rotating to the origin\<close>

lemma arctan2_right: "0 < x \<Longrightarrow> arctan2 y x = arctan (y / x)"
  by (simp add: arctan2_def)

lemma arctan2_upper_left: "x < 0 \<Longrightarrow> 0 \<le> y \<Longrightarrow> arctan2 y x = arctan (y / x) + pi"
  by (simp add: arctan2_def)

lemma arctan2_lower_left: "x < 0 \<Longrightarrow> y < 0 \<Longrightarrow> arctan2 y x = arctan (y / x) - pi"
  by (simp add: arctan2_def)

lemma arctan2_polar:
  assumes c: "0 < c" and lo: "- pi < a" and hi: "a \<le> pi"
  shows "arctan2 (c * sin a) (c * cos a) = a"
proof -
  have q: "c * sin a / (c * cos a) = tan a"
    using c by (simp add: tan_def)
  consider "a = pi / 2" | "a = - (pi / 2)" | "- (pi / 2) < a \<and> a < pi / 2"
    | "pi / 2 < a" | "a < - (pi / 2)"
    by linarith
  then show ?thesis
  proof cases
    case 1
    show ?thesis unfolding 1 using c by (simp add: arctan2_def)
  next
    case 2
    show ?thesis unfolding 2 using c by (simp add: arctan2_def)
  next
    case 3
    then have "0 < cos a" by (simp add: cos_gt_zero_pi)
    then have "0 < c * cos a" using c by simp
    then have "arctan2 (c * sin a) (c * cos a) = arctan (c * sin a / (c * cos a))"
      by (rule arctan2_right)
    also have "\<dots> = arctan (tan a)" by (simp only: q)
    also have "\<dots> = a" using 3 by (simp add: arctan_tan)
    finally show ?thesis .
  next
    case 4
    have r: "- (pi / 2) < a - pi" "a - pi < pi / 2" "0 \<le> a"
      using 4 hi pi_gt_zero by simp_all
    have "0 < cos (a - pi)" using r(1,2) by (rule cos_gt_zero_pi)
    then have x: "c * cos a < 0" using c by (simp add: mult_pos_neg)
    have "0 \<le> sin a" using r(3) hi by (rule sin_ge_zero)
    then have y: "0 \<le> c * sin a" using c by simp
    have "arctan (tan a) = arctan (tan (a - pi))"
      using tan_periodic_pi [of "a - pi"] by simp
    also have "\<dots> = a - pi" using r(1,2) by (rule arctan_tan)
    finally have t: "arctan (tan a) = a - pi" .
    have "arctan2 (c * sin a) (c * cos a) = arctan (c * sin a / (c * cos a)) + pi"
      using x y by (rule arctan2_upper_left)
    also have "\<dots> = arctan (tan a) + pi" by (simp only: q)
    finally show ?thesis using t by simp
  next
    case 5
    have r: "- (pi / 2) < a + pi" "a + pi < pi / 2" "0 < a + pi" "a + pi < pi"
      using 5 lo by simp_all
    have "0 < cos (a + pi)" using r(1,2) by (rule cos_gt_zero_pi)
    then have x: "c * cos a < 0" using c by (simp add: mult_pos_neg)
    have "0 < sin (a + pi)" using r(3,4) by (rule sin_gt_zero)
    then have y: "c * sin a < 0" using c by (simp add: mult_pos_neg)
    have "arctan (tan a) = arctan (tan (a + pi))" by simp
    also have "\<dots> = a + pi" using r(1,2) by (rule arctan_tan)
    finally have t: "arctan (tan a) = a + pi" .
    have "arctan2 (c * sin a) (c * cos a) = arctan (c * sin a / (c * cos a)) - pi"
      using x y by (rule arctan2_lower_left)
    also have "\<dots> = arctan (tan a) - pi" by (simp only: q)
    finally show ?thesis using t by simp
  qed
qed

lemma radians_less: "a < b \<Longrightarrow> radians a < radians b"
  by (simp add: radians_def divide_strict_right_mono)

lemma radians_le: "a \<le> b \<Longrightarrow> radians a \<le> radians b"
  by (simp add: radians_def divide_right_mono)

lemma radians_values: "radians 90 = pi / 2" "radians (- 90) = - (pi / 2)"
  "radians 180 = pi" "radians (- 180) = - pi"
  by (simp_all add: radians_def)

lemma round_trip_point:
  assumes "- 180 < lon" "lon \<le> 180" "- 90 < lat" "lat < 90"
  shows "to_ang (to_vec [(lon, lat)]) = [(lon, lat)]"
proof -
  let ?c = "cos (radians lat)"
  have la: "- (pi / 2) < radians lat" "radians lat < pi / 2"
    using radians_less [OF assms(3)] radians_less [OF assms(4)] by (simp_all add: radians_values)
  have lo: "- pi < radians lon" "radians lon \<le> pi"
    using radians_less [OF assms(1)] radians_le [OF assms(2)] by (simp_all add: radians_values)
  have c: "0 < ?c" using la by (rule cos_gt_zero_pi)
  have n: "(?c * cos (radians lon))\<^sup>2 + (?c * sin (radians lon))\<^sup>2 + (sin (radians lat))\<^sup>2 = 1"
  proof -
    have "(?c * cos (radians lon))\<^sup>2 + (?c * sin (radians lon))\<^sup>2
          = ?c\<^sup>2 * ((cos (radians lon))\<^sup>2 + (sin (radians lon))\<^sup>2)"
      by (simp only: power_mult_distrib distrib_left)
    also have "\<dots> = ?c\<^sup>2" by simp
    finally show ?thesis by simp
  qed
  have "arccos (sin (radians lat)) = arccos (cos (pi / 2 - radians lat))"
    by (simp add: cos_diff)
  also have "\<dots> = pi / 2 - radians lat"
    using la by (intro arccos_cos) simp_all
  finally have ac: "arccos (sin (radians lat)) = pi / 2 - radians lat" .
  have d1: "degrees (radians lon) = lon" by (simp add: degrees_def radians_def)
  have d2: "90 - degrees (pi / 2 - radians lat) = lat"
    by (simp add: degrees_def radians_def diff_divide_distrib right_diff_distrib)
  show ?thesis
    by (simp add: to_vec_single to_ang_def n arctan2_polar [OF c lo] ac d1 d2)
qed

text \<open>
  C7 (as amended): for every polygon \<open>X\<close> whose vertices have \<open>-180 < lon \<le> 180\<close> and
  \<open>-90 < lat < 90\<close>, \<open>rotate_to 0 0 X = X\<close> in exact real arithmetic.
\<close>

theorem rotate_to_origin:
  assumes "\<forall>(lon, lat)\<in>set X. - 180 < lon \<and> lon \<le> 180 \<and> - 90 < lat \<and> lat < 90"
  shows "rotate_to 0 0 X = X"
proof -
  have r: "rotate_to 0 0 X = to_ang (to_vec X)"
    by (simp add: rotate_to_def matmul_rows_def rot_mat_0 vec_mat_T map_mat_vec_identity)
  have s: "to_ang (to_vec X) = concat (map (\<lambda>p. to_ang (to_vec [p])) X)"
    by (induction X) (simp_all add: to_ang_def to_vec_def)
  have m: "map (\<lambda>p. to_ang (to_vec [p])) X = map (\<lambda>p. [p]) X"
    using assms by (intro map_cong refl) (auto simp: round_trip_point)
  have c: "concat (map (\<lambda>p. [p]) X) = X"
    by (induction X) simp_all
  show ?thesis by (simp only: r s m c)
qed

theorem rotate_to_origin_witness:
  "(- 180 < (90 :: real) \<and> (90 :: real) \<le> 180 \<and> - 90 < (0 :: real) \<and> (0 :: real) < 90)
   \<and> (- 180 < (180 :: real) \<and> (180 :: real) \<le> 180 \<and> - 90 < (45 :: real) \<and> (45 :: real) < 90)
   \<and> (- 180 < (0 :: real) \<and> (0 :: real) \<le> 180 \<and> - 90 < (- 30 :: real) \<and> (- 30 :: real) < 90)
   \<and> rotate_to 0 0 [(90, 0), (180, 45), (0, - 30)] = [(90, 0), (180, 45), (0, - 30)]"
proof -
  have h: "\<forall>(lon, lat)\<in>set ([(90, 0), (180, 45), (0, - 30)] :: (real \<times> real) list).
             - 180 < lon \<and> lon \<le> 180 \<and> - 90 < lat \<and> lat < 90"
    by simp
  from rotate_to_origin [OF h] show ?thesis by simp
qed

text \<open>
  Outside that range the longitude is brought back into \<open>(-180, 180]\<close> by \<open>arctan2\<close>:
  the vertex \<open>(270, 0)\<close> becomes \<open>(-90, 0)\<close>.
\<close>

lemma trig_270: "cos (3 * pi / 2) = 0" "sin (3 * pi / 2) = - 1"
  using cos_3over2_pi sin_3over2_pi by simp_all

lemma to_vec_270: "to_vec [(270, 0)] = [(0, - 1, 0)]"
  by (simp add: to_vec_def radians_def Let_def trig_270)

theorem rotate_to_counterexample:
  "rotate_to 0 0 [(270, 0)] = [(- 90, 0)] \<and> rotate_to 0 0 [(270, 0)] \<noteq> [(270, 0)]"
proof -
  have "rotate_to 0 0 [(270, 0)] = to_ang (to_vec [(270, 0)])"
    by (simp add: rotate_to_def matmul_rows_def rot_mat_0 vec_mat_T map_mat_vec_identity)
  also have "\<dots> = [(- 90, 0)]"
    unfolding to_vec_270 by (simp add: to_ang_def arctan2_def degrees_def)
  finally show ?thesis by simp
qed

end
